theory Spec2Isabelle
  imports Complex_Main "HOL-Library.Word" "HOL-Library.Multiset" "HOL-Library.Sublist"
begin

unbundle bit_operations_syntax

section \<open>Data model\<close>

text \<open>
  A game id (\<^verbatim>\<open>game.id\<close>, the id of the event that started the game) is a sequence of
  bytes, 32 of them when valid; the pages hold it as a string, and the model holds the bytes that
  the string denotes. A jester id, a public key and a tag are strings.
  \<^verbatim>\<open>GameStartEvent\<close> has the fields of a row of the \<^verbatim>\<open>game_start\<close> table that the pages read.
\<close>

type_synonym RawGameId = "8 word list"
type_synonym JesterId = string
type_synonym PubKey = string

definition valid_game_id :: "RawGameId \<Rightarrow> bool" where
  "valid_game_id x = (length x = 32)"

record GameStartEvent =
  game_id :: RawGameId
  created_at :: int
  event_tags :: "string list"

record Identity =
  pubkey :: PubKey

record AppSettings =
  currentGameJesterId :: "JesterId option"
  identity :: "Identity option"

text \<open>The failure kinds of decoding an identifier, as the specification names them.\<close>

datatype ParseFailure = MalformedIdentifier | InvalidEncoding | ChecksumMismatch

section \<open>The event store\<close>

text \<open>
  The table \<^verbatim>\<open>gameStore.game_start\<close> is the list of its rows, in primary-key order. The three
  operations of the store that the lobby uses:
  \<^item> \<^verbatim>\<open>where(index).between(lower, upper)\<close>, called with two arguments, so the lower bound is
    included and the upper bound is not; the rows come in the order of the index;
  \<^item> \<^verbatim>\<open>where(index).equals(key)\<close> on an index over a list-valued field: the rows that have
    the key among the values of the field, in table order;
  \<^item> \<^verbatim>\<open>limit(n)\<close>: the first \<open>n\<close> rows.
\<close>

definition where_between :: "('r \<Rightarrow> rat) \<Rightarrow> rat \<Rightarrow> rat \<Rightarrow> 'r list \<Rightarrow> 'r list" where
  "where_between index lower upper table =
     filter (\<lambda>r. lower \<le> index r \<and> index r < upper) (sort_key index table)"


definition limit :: "nat \<Rightarrow> 'r list \<Rightarrow> 'r list" where
  "limit n rows = take n rows"

section \<open>Lobby page: the discovery window\<close>

text \<open>
  \<^verbatim>\<open>LobbyPage.tsx\<close>. A JavaScript \<^verbatim>\<open>Date\<close> is modelled by its time value, the number of
  milliseconds since the epoch, as an \<open>int\<close> (the wall clock of a running page is far inside
  the range a \<^verbatim>\<open>Date\<close> can hold, and its arithmetic is exact there).
  \<^verbatim>\<open>process.env.NODE_ENV === 'development'\<close> is the boolean parameter \<open>development\<close>.
\<close>

definition GAMES_FILTER_PAST_DURATION_IN_MINUTES :: "bool \<Rightarrow> int" where
  "GAMES_FILTER_PAST_DURATION_IN_MINUTES development = (if development then 30 else 5)"

definition GAMES_FILTER_PAST_DURATION_IN_SECONDS :: "bool \<Rightarrow> int" where
  "GAMES_FILTER_PAST_DURATION_IN_SECONDS development =
     GAMES_FILTER_PAST_DURATION_IN_MINUTES development * 60"

definition MAX_AMOUNT_OF_GAMES :: nat where
  "MAX_AMOUNT_OF_GAMES = 100"

definition MIN_UPDATE_IN_SECONDS :: int where
  "MIN_UPDATE_IN_SECONDS = 10"

record GamesFilter =
  filter_from :: int
  filter_until :: int

definition createGameOverviewFilter :: "bool \<Rightarrow> int \<Rightarrow> GamesFilter" where
  "createGameOverviewFilter development now =
     (let from = now - GAMES_FILTER_PAST_DURATION_IN_SECONDS development * 1000;
          until = now + GAMES_FILTER_PAST_DURATION_IN_SECONDS development * 1000
      in \<lparr>filter_from = from, filter_until = until\<rparr>)"


text \<open>
  The public games of the lobby: the body of the live query \<^verbatim>\<open>listOfStartGamesLiveQuery\<close>.
  \<^verbatim>\<open>getTime() / 1_000\<close> is a division of numbers, not of integers, hence the rationals.
\<close>

definition listOfStartGamesLiveQuery :: "GameStartEvent list \<Rightarrow> GamesFilter \<Rightarrow> GameStartEvent list" where
  "listOfStartGamesLiveQuery game_start gameStartEventFilter =
     limit MAX_AMOUNT_OF_GAMES
       (where_between (\<lambda>e. of_int (created_at e))
          (of_int (filter_from gameStartEventFilter) / 1000)
          (of_int (filter_until gameStartEventFilter) / 1000)
          game_start)"




text \<open>
  The window \<open>[from, until)\<close> of a filter, on creation timestamps in seconds, stated in
  milliseconds: the property that the public query is checked against.
\<close>

definition in_window :: "GamesFilter \<Rightarrow> GameStartEvent \<Rightarrow> bool" where
  "in_window f e = (filter_from f \<le> 1000 * created_at e \<and> 1000 * created_at e < filter_until f)"


section \<open>Development helper: creating many games\<close>

text \<open>
  \<^verbatim>\<open>CreateMultipleGamesButton.tsx\<close>, \<^verbatim>\<open>__dev_createMultipleGames\<close>. The function clicks the hidden
  create-game button and re-schedules itself with \<^verbatim>\<open>setTimeout\<close>. Its effect is the trace of
  what it does, in order: a \<open>Click\<close> for every \<^verbatim>\<open>createGameButtonRef.current?.click()\<close>, and a
  \<open>SetTimeout d\<close> where the rest of the work is handed to a timer of \<open>d\<close> milliseconds (the
  actions after it are those of the timer's callback). The amount is an \<open>int\<close>; the page
  passes a whole number.
\<close>

datatype DevAction = Click | SetTimeout nat

function dev_createMultipleGames :: "int \<Rightarrow> DevAction list" where
  "dev_createMultipleGames amount =
     (let chunks = 10 in
      if amount \<le> chunks then replicate (nat amount) Click
      else dev_createMultipleGames chunks @ [SetTimeout 4] @ dev_createMultipleGames (amount - chunks))"
  by pat_completeness auto
termination
  by (relation "measure nat") auto

declare dev_createMultipleGames.simps [simp del]

section \<open>Lobby page: the current game\<close>

text \<open>
  \<^verbatim>\<open>currentGameId\<close> of \<^verbatim>\<open>LobbyPage\<close>: \<^verbatim>\<open>settings.currentGameJesterId && jesterIdToGameId(...)\<close>.
  \<^verbatim>\<open>jesterIdToGameId\<close> is not part of the sources at hand and is the parameter \<open>toGameId\<close>; where
  it fails, so does the page (\<open>Inl\<close>). Without a current game there is no id to compare with
  (\<^verbatim>\<open>undefined\<close>, here \<open>None\<close>); the empty string is handed on by \<^verbatim>\<open>&&\<close> as it is and then
  compared with the ids of the games: it is the empty id.
\<close>

definition currentGameId ::
  "(JesterId \<Rightarrow> ParseFailure + RawGameId) \<Rightarrow> AppSettings \<Rightarrow> ParseFailure + RawGameId option" where
  "currentGameId toGameId settings =
     (case currentGameJesterId settings of
        None \<Rightarrow> Inr None
      | Some j \<Rightarrow> if j = [] then Inr (Some [])
                 else (case toGameId j of Inl failure \<Rightarrow> Inl failure | Inr g \<Rightarrow> Inr (Some g)))"

text \<open>
  \<^verbatim>\<open>GameList\<close> renders one card per game; the model keeps what it computes, the game and its
  \<^verbatim>\<open>isCurrentGame\<close> flag \<^verbatim>\<open>game.id === props.currentGameId\<close>.
\<close>

definition GameList :: "GameStartEvent list \<Rightarrow> RawGameId option \<Rightarrow> (GameStartEvent \<times> bool) list" where
  "GameList games currentGameId' =
     map (\<lambda>game. (game, Some (game_id game) = currentGameId')) games"

text \<open>
  Modelled from the spec: the dispatch of the settings store (\<^verbatim>\<open>SettingsContext\<close> is not among
  the sources), for an object that carries the field \<^verbatim>\<open>currentGameJesterId\<close>: the field is
  replaced, the other settings stay (``set currentGameId(PublicGameId?)'').
\<close>

definition settingsDispatch :: "JesterId option \<Rightarrow> AppSettings \<Rightarrow> AppSettings" where
  "settingsDispatch jesterId settings = settings\<lparr>currentGameJesterId := jesterId\<rparr>"

text \<open>\<^verbatim>\<open>unsubscribeFromCurrentGame\<close> of \<^verbatim>\<open>CurrentGameCard\<close>, run by the card's close button.\<close>

definition unsubscribeFromCurrentGame :: "AppSettings \<Rightarrow> AppSettings" where
  "unsubscribeFromCurrentGame settings = settingsDispatch None settings"

text \<open>
  Modelled from the spec: \<open>setCurrent(id)\<close>, ``any state \<open>\<rightarrow>\<close> HasCurrentGame(id)''; the
  components that start or join a game are not among the sources.
\<close>

definition setCurrent :: "JesterId \<Rightarrow> AppSettings \<Rightarrow> AppSettings" where
  "setCurrent jesterId settings = settingsDispatch (Some jesterId) settings"

text \<open>
  The state of the lobby page and what changes it. \<open>TimerFired t now\<close> is the interval timer
  running \<^verbatim>\<open>setTick((_) => Date.now())\<close> with \<open>Date.now() = t\<close>; if the tick changed, the effect
  that depends on it replaces the filter by the one of \<^verbatim>\<open>new Date()\<close>, which is \<open>now\<close>.
\<close>

record LobbyPage =
  settings :: AppSettings
  gameStartEventFilter :: GamesFilter
  tick :: int

datatype LobbyEvent = TimerFired int int | CloseCurrentGameCard | SetCurrentGame JesterId

fun lobby_step :: "bool \<Rightarrow> LobbyEvent \<Rightarrow> LobbyPage \<Rightarrow> LobbyPage" where
  "lobby_step development (TimerFired t now) page =
     (if t = tick page then page
      else page\<lparr>tick := t, gameStartEventFilter := createGameOverviewFilter development now\<rparr>)"
| "lobby_step development CloseCurrentGameCard page =
     page\<lparr>settings := unsubscribeFromCurrentGame (settings page)\<rparr>"
| "lobby_step development (SetCurrentGame jesterId) page =
     page\<lparr>settings := setCurrent jesterId (settings page)\<rparr>"

section \<open>Search page\<close>

text \<open>
  \<^verbatim>\<open>SearchPage.tsx\<close>. The state of the page is its three state variables and the paths it has
  navigated to. \<^verbatim>\<open>JesterUtils.JESTER_ID_PREFIX\<close> and \<^verbatim>\<open>JesterUtils.tryParseJesterId\<close> are not part
  of the sources at hand: they are the parameters \<open>idPrefix\<close> and \<open>tryParse\<close>
  (\<^verbatim>\<open>null\<close> is \<open>None\<close>).
\<close>

record SearchPage =
  searchInputValue :: string
  searchResults :: "string list option"
  inputIsJesterId :: "bool option"
  navigated :: "string list"

definition initialSearchPage :: SearchPage where
  "initialSearchPage =
     \<lparr>searchInputValue = [], searchResults = None, inputIsJesterId = None, navigated = []\<rparr>"

text \<open>\<^verbatim>\<open>String.prototype.indexOf\<close>: the first position where the needle starts, or \<open>-1\<close>.\<close>

fun indexOf :: "string \<Rightarrow> string \<Rightarrow> int" where
  "indexOf [] needle = (if needle = [] then 0 else - 1)"
| "indexOf (c # cs) needle =
     (if prefix needle (c # cs) then 0
      else (let i = indexOf cs needle in if i < 0 then - 1 else i + 1))"

text \<open>\<^verbatim>\<open>String.prototype.substring\<close> with one argument: from that position to the end.\<close>

definition substring :: "string \<Rightarrow> int \<Rightarrow> string" where
  "substring s start = drop (nat start) s"

definition search ::
  "string \<Rightarrow> (JesterId \<Rightarrow> JesterId option) \<Rightarrow> string \<Rightarrow> SearchPage \<Rightarrow> SearchPage" where
  "search idPrefix tryParse searchInput page =
     (if searchInput = [] then page\<lparr>searchResults := Some []\<rparr>
      else
        let indexOfPrefix = indexOf searchInput (idPrefix @ ''1'') in
        if indexOfPrefix < 0 then page\<lparr>inputIsJesterId := Some False, searchResults := Some []\<rparr>
        else
          let possibleJesterId = substring searchInput indexOfPrefix in
          case tryParse possibleJesterId of
            None \<Rightarrow> page\<lparr>searchResults := Some [], inputIsJesterId := Some False\<rparr>
          | Some jesterId \<Rightarrow>
              page\<lparr>inputIsJesterId := Some True, searchResults := None,
                   navigated := navigated page @ [''/redirect/game/'' @ jesterId]\<rparr>)"

definition onSearchButtonClicked ::
  "string \<Rightarrow> (JesterId \<Rightarrow> JesterId option) \<Rightarrow> SearchPage \<Rightarrow> SearchPage" where
  "onSearchButtonClicked idPrefix tryParse page =
     search idPrefix tryParse (searchInputValue page) page"

definition onSearchInputChange :: "string \<Rightarrow> SearchPage \<Rightarrow> SearchPage" where
  "onSearchInputChange v page =
     page\<lparr>searchInputValue := v, inputIsJesterId := None, searchResults := None\<rparr>"

text \<open>The page in use: the user edits the input and submits, in any order.\<close>

datatype SearchEvent = InputChanged string | SearchSubmitted

fun searchPage_step ::
  "string \<Rightarrow> (JesterId \<Rightarrow> JesterId option) \<Rightarrow> SearchPage \<Rightarrow> SearchEvent \<Rightarrow> SearchPage" where
  "searchPage_step idPrefix tryParse page (InputChanged v) = onSearchInputChange v page"
| "searchPage_step idPrefix tryParse page SearchSubmitted = onSearchButtonClicked idPrefix tryParse page"

definition searchPage_run ::
  "string \<Rightarrow> (JesterId \<Rightarrow> JesterId option) \<Rightarrow> SearchEvent list \<Rightarrow> SearchPage" where
  "searchPage_run idPrefix tryParse events =
     foldl (searchPage_step idPrefix tryParse) initialSearchPage events"

section \<open>The identifier codec\<close>

text \<open>
  The codec lives in \<^verbatim>\<open>util/jester\<close>, which is not among the sources; the pages only call
  it. It is modelled from the specification: a public identifier is ``a fixed literal prefix, a
  version/separator character, and an encoding of RawGameId plus an embedded checksum''. The
  concrete form is fixed by the sample identifier that the search page prints,
  \<^verbatim>\<open>jester13s8c6xzp33n93zn2qmvtgaypncphz585fggggnzvppmxnyamvc4qpu3sdv\<close>: the prefix \<^verbatim>\<open>jester\<close>,
  the separator \<^verbatim>\<open>1\<close>, then the 32 bytes in groups of five bits, one character each, and six
  characters of checksum. This is the Bech32m format, whose alphabet, checksum polynomial and
  checksum constant are used below; the model is checked against the sample in
  \<open>sample_jester_id_decodes\<close>.
\<close>

text \<open>
  Modelled from the spec: the ``fixed literal prefix'' of a public identifier
  (\<^verbatim>\<open>JesterUtils.JESTER_ID_PREFIX\<close>, not among the sources); its value is that of the sample
  identifier the search page prints, \<^verbatim>\<open>jester13s8c6xzp...\<close>, where the separator \<^verbatim>\<open>1\<close> follows it.
\<close>

definition JESTER_ID_PREFIX :: string where
  "JESTER_ID_PREFIX = ''jester''"

text \<open>
  Modelled from the spec: the characters of the ``encoding of RawGameId plus an embedded
  checksum'', one per group of five bits; the alphabet is the one of the sample identifier.
\<close>

definition ALPHABET :: string where
  "ALPHABET = ''qpzry9x8gf2tvdw0s3jn54khce6mua7l''"

text \<open>
  Modelled from the spec: the value that the checksum of a well-formed identifier
  evaluates to.
\<close>

definition ENCODING_CONST :: "32 word" where
  "ENCODING_CONST = 0x2bc830a3"

text \<open>
  Modelled from the spec: the position of a character in the alphabet, if it has one.
\<close>

fun index_of :: "'a \<Rightarrow> 'a list \<Rightarrow> nat option" where
  "index_of c [] = None"
| "index_of c (x # xs) = (if x = c then Some 0 else map_option Suc (index_of c xs))"

text \<open>
  Modelled from the spec: the five-bit group that a character stands for.
\<close>

definition ALPHABET_MAP :: "char \<Rightarrow> 5 word option" where
  "ALPHABET_MAP c = map_option of_nat (index_of c ALPHABET)"

text \<open>
  Modelled from the spec: one step of the checksum, a polynomial code over groups of
  five bits, computed on 32-bit integers.
\<close>

definition polymodStep :: "32 word \<Rightarrow> 32 word" where
  "polymodStep pre =
     (let b = drop_bit 25 pre in
      push_bit 5 (pre AND 0x1ffffff)
        XOR (if bit b 0 then 0x3b6a57b2 else 0)
        XOR (if bit b 1 then 0x26508e6d else 0)
        XOR (if bit b 2 then 0x1ea119fa else 0)
        XOR (if bit b 3 then 0x3d4233dd else 0)
        XOR (if bit b 4 then 0x2a1462b3 else 0))"

text \<open>
  Modelled from the spec: the checksum state after a sequence of five-bit values.
\<close>

definition polymod :: "32 word \<Rightarrow> 32 word list \<Rightarrow> 32 word" where
  "polymod chk values = foldl (\<lambda>chk v. polymodStep chk XOR v) chk values"

text \<open>
  Modelled from the spec: the checksum state after the prefix: the high bits of its
  characters, a zero, and their low five bits.
\<close>

definition prefixChk :: "string \<Rightarrow> 32 word" where
  "prefixChk p =
     polymod (polymodStep (polymod 1 (map (\<lambda>c. drop_bit 5 (of_char c)) p)))
       (map (\<lambda>c. of_char c AND 0x1f) p)"

text \<open>
  Modelled from the spec: the number that a sequence of bits denotes, most significant
  bit first.
\<close>

definition of_bits :: "bool list \<Rightarrow> 'a::len word" where
  "of_bits bits = horner_sum of_bool 2 (rev bits)"

text \<open>
  Modelled from the spec: the eight bits of a byte, most significant first.
\<close>

definition bits8 :: "8 word \<Rightarrow> bool list" where
  "bits8 w = [bit w 7, bit w 6, bit w 5, bit w 4, bit w 3, bit w 2, bit w 1, bit w 0]"

text \<open>
  Modelled from the spec: the five bits of a group, most significant first.
\<close>

definition bits5 :: "5 word \<Rightarrow> bool list" where
  "bits5 w = [bit w 4, bit w 3, bit w 2, bit w 1, bit w 0]"

text \<open>
  Modelled from the spec: the bits of the bytes regrouped by five, the last group
  filled up with zero bits.
\<close>

fun groups5 :: "bool list \<Rightarrow> 5 word list" where
  "groups5 (a # b # c # d # e # bits) = of_bits [a, b, c, d, e] # groups5 bits"
| "groups5 [] = []"
| "groups5 bits = [of_bits (bits @ replicate (5 - length bits) False)]"

text \<open>
  Modelled from the spec: the five-bit groups of a byte sequence.
\<close>

definition toWords :: "8 word list \<Rightarrow> 5 word list" where
  "toWords bytes = groups5 (concat (map bits8 bytes))"

text \<open>
  Modelled from the spec: bits regrouped by eight into bytes, with the bits left
  over.
\<close>

fun groups8 :: "bool list \<Rightarrow> 8 word list \<times> bool list" where
  "groups8 (a # b # c # d # e # f # g # h # bits) =
     (let (bytes, rest) = groups8 bits in (of_bits [a, b, c, d, e, f, g, h] # bytes, rest))"
| "groups8 bits = ([], bits)"

text \<open>
  Modelled from the spec: the bytes of a sequence of five-bit groups; left-over bits
  must be padding (fewer than five, all zero), otherwise the payload is structurally
  undecodable.
\<close>

definition fromWords :: "5 word list \<Rightarrow> ParseFailure + 8 word list" where
  "fromWords ws =
     (let (bytes, rest) = groups8 (concat (map bits5 ws)) in
      if 5 \<le> length rest then Inl InvalidEncoding
      else if True \<in> set rest then Inl InvalidEncoding
      else Inr bytes)"

text \<open>
  Modelled from the spec: the six five-bit groups of the ``embedded checksum'' of a
  payload under a prefix.
\<close>

definition checksum :: "string \<Rightarrow> 5 word list \<Rightarrow> 5 word list" where
  "checksum p ws =
     (let chk = polymod (polymod (prefixChk p) (map ucast ws)) [0, 0, 0, 0, 0, 0] XOR ENCODING_CONST
      in map (\<lambda>i. ucast (drop_bit (5 * (5 - i)) chk AND 0x1f)) [0..<6])"

text \<open>
  Modelled from the spec: the ``checksummed string prefixed with a fixed literal tag'':
  prefix, separator, and the characters of the payload and of its checksum.
\<close>

definition encode :: "string \<Rightarrow> 5 word list \<Rightarrow> string" where
  "encode p ws = p @ ''1'' @ map (\<lambda>w. ALPHABET ! unat w) (ws @ checksum p ws)"

text \<open>
  Modelled from the spec: a string split at the last occurrence of a character.
\<close>

fun splitLast :: "'a \<Rightarrow> 'a list \<Rightarrow> ('a list \<times> 'a list) option" where
  "splitLast c [] = None"
| "splitLast c (x # xs) =
     (case splitLast c xs of
        Some (front, back) \<Rightarrow> Some (x # front, back)
      | None \<Rightarrow> if x = c then Some ([], xs) else None)"

text \<open>
  Modelled from the spec: the five-bit groups of a sequence of characters, if all
  are characters of the alphabet.
\<close>

fun those_words :: "char list \<Rightarrow> 5 word list option" where
  "those_words [] = Some []"
| "those_words (c # cs) =
     (case ALPHABET_MAP c of
        None \<Rightarrow> None
      | Some w \<Rightarrow> map_option ((#) w) (those_words cs))"

text \<open>
  Modelled from the spec: the three validations of decoding: the prefix and the separator
  are present (else \<open>MalformedIdentifier\<close>), the remainder is made of at least six characters
  of the alphabet (else \<open>InvalidEncoding\<close>), and the checksum matches (else
  \<open>ChecksumMismatch\<close>).
\<close>

definition decode :: "string \<Rightarrow> string \<Rightarrow> ParseFailure + 5 word list" where
  "decode p candidate =
     (case splitLast CHR ''1'' candidate of
        None \<Rightarrow> Inl MalformedIdentifier
      | Some (front, wordChars) \<Rightarrow>
          if front \<noteq> p then Inl MalformedIdentifier
          else if length wordChars < 6 then Inl InvalidEncoding
          else (case those_words wordChars of
                  None \<Rightarrow> Inl InvalidEncoding
                | Some ws \<Rightarrow>
                    if polymod (prefixChk p) (map ucast ws) \<noteq> ENCODING_CONST
                    then Inl ChecksumMismatch
                    else Inr (take (length ws - 6) ws)))"

text \<open>
  Modelled from the spec: \<open>encode(rawGameId)\<close>, the public identifier of a game id
  (\<^verbatim>\<open>JesterUtils.gameIdToJesterId\<close>, not among the sources).
\<close>

definition gameIdToJesterId :: "RawGameId \<Rightarrow> JesterId" where
  "gameIdToJesterId gameId = encode JESTER_ID_PREFIX (toWords gameId)"

text \<open>
  Modelled from the spec: \<open>decode(candidate)\<close> on a string that starts with the
  prefix (\<^verbatim>\<open>jesterIdToGameId\<close> of \<^verbatim>\<open>util/jester\<close>, not among the sources); the result is
  tagged, a game id or the kind of the failure.
\<close>

definition jesterIdToGameId :: "JesterId \<Rightarrow> ParseFailure + RawGameId" where
  "jesterIdToGameId jesterId =
     (case decode JESTER_ID_PREFIX jesterId of
        Inl failure \<Rightarrow> Inl failure
      | Inr ws \<Rightarrow> fromWords ws)"

text \<open>
  Modelled from the spec: \<^verbatim>\<open>JesterUtils.tryParseJesterId\<close> (not among the sources):
  the identifier itself if it decodes, \<^verbatim>\<open>null\<close> if not, as the search page uses it.
\<close>

definition tryParseJesterId :: "JesterId \<Rightarrow> JesterId option" where
  "tryParseJesterId v = (case jesterIdToGameId v of Inl failure \<Rightarrow> None | Inr gameId \<Rightarrow> Some v)"

section \<open>Properties of the discovery window\<close>

text \<open>
  C4: for every instant \<open>now\<close> and either build mode, the window of
  \<^verbatim>\<open>createGameOverviewFilter\<close> starts the configured duration \<open>D\<close> before \<open>now\<close> and ends
  \<open>D\<close> after it (\<open>D\<close> seconds are \<open>D * 1000\<close> milliseconds), so \<open>from < now < until\<close>, and
  its width \<open>until - from\<close> is \<open>2 * D\<close>, the same at every recomputation.
\<close>

theorem createGameOverviewFilter_window:
  "filter_from (createGameOverviewFilter development now)
     = now - GAMES_FILTER_PAST_DURATION_IN_SECONDS development * 1000
   \<and> filter_until (createGameOverviewFilter development now)
     = now + GAMES_FILTER_PAST_DURATION_IN_SECONDS development * 1000
   \<and> filter_from (createGameOverviewFilter development now) < now
   \<and> now < filter_until (createGameOverviewFilter development now)
   \<and> filter_until (createGameOverviewFilter development now)
       - filter_from (createGameOverviewFilter development now)
     = 2 * (GAMES_FILTER_PAST_DURATION_IN_SECONDS development * 1000)
   \<and> filter_until (createGameOverviewFilter development now')
       - filter_from (createGameOverviewFilter development now')
     = filter_until (createGameOverviewFilter development now)
       - filter_from (createGameOverviewFilter development now)"
  by (simp add: createGameOverviewFilter_def GAMES_FILTER_PAST_DURATION_IN_SECONDS_def
      GAMES_FILTER_PAST_DURATION_IN_MINUTES_def Let_def)

section \<open>Properties of the public query\<close>

lemma window_rat:
  "((of_int lo :: rat) / 1000 \<le> of_int c \<and> (of_int c :: rat) < of_int hi / 1000)
   = (lo \<le> 1000 * c \<and> 1000 * c < hi)"
proof -
  have a: "((of_int lo :: rat) / 1000 \<le> of_int c) = ((of_int lo :: rat) \<le> of_int (1000 * c))"
    by (simp add: divide_le_eq mult.commute)
  have b: "((of_int c :: rat) < of_int hi / 1000) = ((of_int (1000 * c) :: rat) < of_int hi)"
    by (simp add: less_divide_eq mult.commute)
  show ?thesis unfolding a b by (simp only: of_int_le_iff of_int_less_iff)
qed

lemma public_query_eq:
  "listOfStartGamesLiveQuery game_start f =
     take 100 (filter (in_window f) (sort_key (\<lambda>e. (of_int (created_at e) :: rat)) game_start))"
proof -
  have "(\<lambda>r. (of_int (filter_from f) :: rat) / 1000 \<le> of_int (created_at r)
            \<and> (of_int (created_at r) :: rat) < of_int (filter_until f) / 1000) = in_window f"
    by (rule ext) (simp only: window_rat in_window_def)
  then show ?thesis
    unfolding listOfStartGamesLiveQuery_def limit_def where_between_def MAX_AMOUNT_OF_GAMES_def
    by (simp only:)
qed

lemma public_query_sorted: "sorted (map created_at (listOfStartGamesLiveQuery game_start f))"
proof -
  let ?k = "\<lambda>e. (of_int (created_at e) :: rat)"
  have "sorted_wrt (\<lambda>a b. ?k a \<le> ?k b) (sort_key ?k game_start)"
    using sorted_sort_key [of ?k game_start] by (simp only: sorted_map)
  then have "sorted_wrt (\<lambda>a b. ?k a \<le> ?k b) (listOfStartGamesLiveQuery game_start f)"
    unfolding public_query_eq by (intro sorted_wrt_take sorted_wrt_filter)
  then show ?thesis
    by (simp add: sorted_map)
qed

lemma filter_sort_key_mset: "mset (filter P (sort_key k xs)) = mset (filter P xs)"
  by simp

lemma filter_sort_key_length: "length (filter P (sort_key k xs)) = length (filter P xs)"
proof -
  have "size (mset (filter P (sort_key k xs))) = size (mset (filter P xs))"
    by (simp only: filter_sort_key_mset)
  then show ?thesis by (simp only: size_mset)
qed

lemma mset_take_subseteq: "mset (take n xs) \<subseteq># mset xs"
proof -
  have "mset xs = mset (take n xs) + mset (drop n xs)"
    by (simp only: mset_append [symmetric] append_take_drop_id)
  then show ?thesis by simp
qed

lemma public_query_set:
  "set (listOfStartGamesLiveQuery game_start f) \<subseteq> {e \<in> set game_start. in_window f e}"
proof -
  have "set (listOfStartGamesLiveQuery game_start f)
        \<subseteq> set (filter (in_window f) (sort_key (\<lambda>e. (of_int (created_at e) :: rat)) game_start))"
    unfolding public_query_eq by (rule set_take_subset)
  then show ?thesis by simp
qed

lemma public_query_length:
  "length (listOfStartGamesLiveQuery game_start f)
     = min MAX_AMOUNT_OF_GAMES (length (filter (in_window f) game_start))"
  unfolding public_query_eq MAX_AMOUNT_OF_GAMES_def
  by (simp only: length_take filter_sort_key_length min.commute)

lemma public_query_sub:
  "mset (listOfStartGamesLiveQuery game_start f) \<subseteq># mset (filter (in_window f) game_start)"
  unfolding public_query_eq
  using mset_take_subseteq [of 100 "filter (in_window f) (sort_key (\<lambda>e. (of_int (created_at e) :: rat)) game_start)"]
  by (simp only: filter_sort_key_mset)

lemma public_query_all:
  assumes "length (filter (in_window f) game_start) \<le> MAX_AMOUNT_OF_GAMES"
  shows "mset (listOfStartGamesLiveQuery game_start f) = mset (filter (in_window f) game_start)"
proof -
  let ?S = "sort_key (\<lambda>e. (of_int (created_at e) :: rat)) game_start"
  from assms have "length (filter (in_window f) ?S) \<le> 100"
    by (simp only: filter_sort_key_length MAX_AMOUNT_OF_GAMES_def)
  then have "take 100 (filter (in_window f) ?S) = filter (in_window f) ?S" by (rule take_all)
  then show ?thesis
    unfolding public_query_eq by (simp only: filter_sort_key_mset)
qed

text \<open>
  C3: the public query returns rows of the store whose creation time lies in the window
  \<open>[from, until)\<close> and no others (a row at or past \<open>until\<close>, or before \<open>from\<close>, is never
  returned); it returns 100 rows at most, however many the store holds: the number of rows
  returned is the smaller of 100 and the number of rows in the window, each returned as often as
  the store holds it, and when the window holds at most 100 rows they are returned all, in the
  order of their creation time.
\<close>

theorem listOfStartGamesLiveQuery_window:
  "set (listOfStartGamesLiveQuery game_start f) \<subseteq> {e \<in> set game_start. in_window f e}
   \<and> length (listOfStartGamesLiveQuery game_start f)
       = min MAX_AMOUNT_OF_GAMES (length (filter (in_window f) game_start))
   \<and> MAX_AMOUNT_OF_GAMES = 100
   \<and> mset (listOfStartGamesLiveQuery game_start f) \<subseteq># mset (filter (in_window f) game_start)
   \<and> (length (filter (in_window f) game_start) \<le> MAX_AMOUNT_OF_GAMES \<longrightarrow>
        mset (listOfStartGamesLiveQuery game_start f) = mset (filter (in_window f) game_start))
   \<and> sorted (map created_at (listOfStartGamesLiveQuery game_start f))"
  using public_query_set [of game_start f] public_query_length [of game_start f]
    public_query_sub [of game_start f] public_query_all [of f game_start]
    public_query_sorted [of game_start f] MAX_AMOUNT_OF_GAMES_def
  by blast

text \<open>
  The scenario of the specification, in production mode (\<open>D = 300\<close> seconds) at
  \<open>t0 = 1700000000\<close>: rows created at \<open>t0 + 301\<close>, \<open>t0 + 300\<close> and \<open>t0 - 301\<close> are left
  out, rows created at \<open>t0 + 299\<close> and \<open>t0 - 300\<close> are returned.
\<close>

theorem listOfStartGamesLiveQuery_window_witness:
  "length (filter (in_window (createGameOverviewFilter False 1700000000000))
      [\<lparr>game_id = [], created_at = 1700000301, event_tags = []\<rparr>,
       \<lparr>game_id = [], created_at = 1700000299, event_tags = []\<rparr>,
       \<lparr>game_id = [], created_at = 1700000300, event_tags = []\<rparr>,
       \<lparr>game_id = [], created_at = 1699999700, event_tags = []\<rparr>,
       \<lparr>game_id = [], created_at = 1699999699, event_tags = []\<rparr>]) \<le> MAX_AMOUNT_OF_GAMES
   \<and> mset (listOfStartGamesLiveQuery
      [\<lparr>game_id = [], created_at = 1700000301, event_tags = []\<rparr>,
       \<lparr>game_id = [], created_at = 1700000299, event_tags = []\<rparr>,
       \<lparr>game_id = [], created_at = 1700000300, event_tags = []\<rparr>,
       \<lparr>game_id = [], created_at = 1699999700, event_tags = []\<rparr>,
       \<lparr>game_id = [], created_at = 1699999699, event_tags = []\<rparr>]
      (createGameOverviewFilter False 1700000000000))
     = {#\<lparr>game_id = [], created_at = 1700000299, event_tags = []\<rparr>,
         \<lparr>game_id = [], created_at = 1699999700, event_tags = []\<rparr>#}"
  using listOfStartGamesLiveQuery_window
    [of "[\<lparr>game_id = [], created_at = 1700000301, event_tags = []\<rparr>,
       \<lparr>game_id = [], created_at = 1700000299, event_tags = []\<rparr>,
       \<lparr>game_id = [], created_at = 1700000300, event_tags = []\<rparr>,
       \<lparr>game_id = [], created_at = 1699999700, event_tags = []\<rparr>,
       \<lparr>game_id = [], created_at = 1699999699, event_tags = []\<rparr>]"
      "createGameOverviewFilter False 1700000000000"]
  by (simp add: in_window_def createGameOverviewFilter_def GAMES_FILTER_PAST_DURATION_IN_SECONDS_def
      GAMES_FILTER_PAST_DURATION_IN_MINUTES_def MAX_AMOUNT_OF_GAMES_def)

section \<open>Properties of the private-challenge query\<close>








section \<open>Properties of the development helper\<close>

lemma dev_small:
  "amount \<le> 10 \<Longrightarrow> dev_createMultipleGames amount = replicate (nat amount) Click"
  by (subst dev_createMultipleGames.simps) simp

lemma dev_big:
  "10 < amount \<Longrightarrow> dev_createMultipleGames amount =
     replicate 10 Click @ [SetTimeout 4] @ dev_createMultipleGames (amount - 10)"
  by (subst dev_createMultipleGames.simps) (simp add: Let_def dev_small)

lemma dev_trace:
  "0 \<le> amount \<Longrightarrow> dev_createMultipleGames amount =
     concat (replicate ((nat amount - 1) div 10) (replicate 10 Click @ [SetTimeout 4]))
     @ replicate (nat amount - 10 * ((nat amount - 1) div 10)) Click"
proof (induction amount rule: dev_createMultipleGames.induct)
  case (1 amount)
  show ?case
  proof (cases "amount \<le> 10")
    case True
    then have "(nat amount - 1) div 10 = 0" by simp
    with True show ?thesis by (simp add: dev_small)
  next
    case False
    then have big: "10 < amount" by simp
    have ih: "dev_createMultipleGames (amount - 10) =
      concat (replicate ((nat (amount - 10) - 1) div 10) (replicate 10 Click @ [SetTimeout 4]))
      @ replicate (nat (amount - 10) - 10 * ((nat (amount - 10) - 1) div 10)) Click"
      using "1.IH"(2)[of 10] False by simp
    have k: "(nat amount - 1) div 10 = Suc ((nat (amount - 10) - 1) div 10)"
      using big by (simp add: nat_diff_distrib)
    have r: "nat amount - 10 * ((nat amount - 1) div 10)
           = nat (amount - 10) - 10 * ((nat (amount - 10) - 1) div 10)"
    proof -
      have "nat (amount - 10) = nat amount - 10" using big by simp
      then show ?thesis unfolding k by simp
    qed
    show ?thesis
      unfolding dev_big[OF big] ih r unfolding k by simp
  qed
qed

lemma dev_clicks:
  "0 \<le> amount \<Longrightarrow>
     length (filter (\<lambda>a. a = Click) (dev_createMultipleGames amount)) = nat amount"
proof (induction amount rule: dev_createMultipleGames.induct)
  case (1 amount)
  show ?case
  proof (cases "amount \<le> 10")
    case True
    then show ?thesis by (simp add: dev_small)
  next
    case False
    then have big: "10 < amount" by simp
    have ih: "length (filter (\<lambda>a. a = Click) (dev_createMultipleGames (amount - 10)))
            = nat (amount - 10)"
      using "1.IH"(2)[of 10] False by simp
    show ?thesis
      unfolding dev_big[OF big] using ih big by simp
  qed
qed

text \<open>
  C9: for every amount \<open>N \<ge> 0\<close> the batch creator terminates (the function is total: its
  recursion is on a smaller amount) and clicks the create-game button \<open>N\<close> times in all; the
  clicks come in chunks of 10, each but the last followed by a timer of 4 milliseconds that runs
  the rest, and the last chunk holds the remaining 1 to 10 clicks (none for \<open>N = 0\<close>).
\<close>

theorem dev_createMultipleGames_exactly_N:
  "0 \<le> amount \<Longrightarrow>
     length (filter (\<lambda>a. a = Click) (dev_createMultipleGames amount)) = nat amount
     \<and> dev_createMultipleGames amount =
         concat (replicate ((nat amount - 1) div 10) (replicate 10 Click @ [SetTimeout 4]))
         @ replicate (nat amount - 10 * ((nat amount - 1) div 10)) Click"
  using dev_clicks [of amount] dev_trace [of amount] by blast

theorem dev_createMultipleGames_exactly_N_witness:
  "(0::int) \<le> 21
   \<and> length (filter (\<lambda>a. a = Click) (dev_createMultipleGames 21)) = 21
   \<and> dev_createMultipleGames 21 =
       replicate 10 Click @ [SetTimeout 4] @ replicate 10 Click @ [SetTimeout 4] @ [Click]"
proof -
  have h: "(0::int) \<le> 21" by simp
  show ?thesis
    using dev_createMultipleGames_exactly_N [OF h]
    by (simp add: dev_big dev_small)
qed

section \<open>Properties of the search page\<close>

lemma search_empty: "search idPrefix tryParse [] page = page\<lparr>searchResults := Some []\<rparr>"
  by (simp add: search_def)

lemma search_keeps_input:
  "searchInputValue (search idPrefix tryParse v page) = searchInputValue page"
  by (simp add: search_def Let_def split: option.splits)

lemma run_snoc:
  "searchPage_run P T (es @ [e]) = searchPage_step P T (searchPage_run P T es) e"
  by (simp add: searchPage_run_def)

lemma flag_invariant:
  "searchInputValue (searchPage_run P T es) = [] \<Longrightarrow> inputIsJesterId (searchPage_run P T es) = None"
proof (induction es rule: rev_induct)
  case Nil
  then show ?case by (simp add: searchPage_run_def initialSearchPage_def)
next
  case (snoc e es)
  show ?case
  proof (cases e)
    case (InputChanged v)
    then show ?thesis by (simp add: run_snoc onSearchInputChange_def)
  next
    case SearchSubmitted
    with snoc.prems have v: "searchInputValue (searchPage_run P T es) = []"
      by (simp add: run_snoc onSearchButtonClicked_def search_keeps_input)
    then have "inputIsJesterId (searchPage_run P T es) = None" by (rule snoc.IH)
    with v SearchSubmitted show ?thesis
      by (simp add: run_snoc onSearchButtonClicked_def search_empty)
  qed
qed

text \<open>
  C10: \<^verbatim>\<open>search\<close> on the empty string sets the results to the empty list and nothing else: it
  does not navigate and does not touch the validity flag. Whenever the page's input is empty the
  flag is \<^verbatim>\<open>null\<close> (every change of the input resets it, and a search marks only a non-empty
  input), so submitting the empty input leaves the flag \<^verbatim>\<open>null\<close>, with empty results. A change
  of the input stores the new value and resets the results and the flag to \<^verbatim>\<open>null\<close>.
\<close>

theorem search_empty_input:
  "search idPrefix tryParse [] page = page\<lparr>searchResults := Some []\<rparr>
   \<and> searchResults (search idPrefix tryParse [] page) = Some []
   \<and> navigated (search idPrefix tryParse [] page) = navigated page
   \<and> inputIsJesterId (search idPrefix tryParse [] page) = inputIsJesterId page
   \<and> (searchInputValue (searchPage_run idPrefix tryParse events) = [] \<longrightarrow>
        inputIsJesterId
          (onSearchButtonClicked idPrefix tryParse (searchPage_run idPrefix tryParse events)) = None
        \<and> searchResults
          (onSearchButtonClicked idPrefix tryParse (searchPage_run idPrefix tryParse events)) = Some [])
   \<and> searchInputValue (onSearchInputChange v page) = v
   \<and> searchResults (onSearchInputChange v page) = None
   \<and> inputIsJesterId (onSearchInputChange v page) = None"
  by (simp add: search_empty onSearchButtonClicked_def onSearchInputChange_def flag_invariant)

text \<open>
  A run of the page: a search for \<open>abc\<close> marks the input invalid; the input is then cleared
  and submitted again, and the flag is \<^verbatim>\<open>null\<close>.
\<close>

theorem search_empty_input_witness:
  "inputIsJesterId (searchPage_run ''jester'' (\<lambda>_. None) [InputChanged ''abc'', SearchSubmitted])
     = Some False
   \<and> searchInputValue
       (searchPage_run ''jester'' (\<lambda>_. None) [InputChanged ''abc'', SearchSubmitted, InputChanged []])
     = []
   \<and> inputIsJesterId (onSearchButtonClicked ''jester'' (\<lambda>_. None)
       (searchPage_run ''jester'' (\<lambda>_. None) [InputChanged ''abc'', SearchSubmitted, InputChanged []]))
     = None"
  using search_empty_input
    [of "''jester''" "\<lambda>_. None" _ "[InputChanged ''abc'', SearchSubmitted, InputChanged []]"]
  by (simp add: searchPage_run_def initialSearchPage_def onSearchInputChange_def
      onSearchButtonClicked_def search_def)

section \<open>Properties of the identifier codec\<close>

lemma mask25: "(0x1ffffff :: 32 word) = mask 25"
  by (simp add: mask_eq_exp_minus_1)

lemma and_mask25_low:
  assumes "drop_bit 25 (d :: 32 word) = 0"
  shows "d AND 0x1ffffff = d"
proof -
  have "take_bit 25 d = d"
    using assms bits_ident [of 25 d] by simp
  then show ?thesis
    unfolding mask25 by (simp only: take_bit_eq_mask [symmetric])
qed

lemma polymodStep_low:
  assumes "drop_bit 25 d = 0"
  shows "polymodStep (c XOR d) = polymodStep c XOR push_bit 5 d"
proof -
  have b: "drop_bit 25 (c XOR d) = drop_bit 25 c"
    by (simp add: drop_bit_xor assms) 
  have m: "(c XOR d) AND 0x1ffffff = (c AND 0x1ffffff) XOR d"
    using and_mask25_low [OF assms] by (simp only: bit.conj_xor_distrib2)
  show ?thesis
    unfolding polymodStep_def Let_def b m
    by (simp only: push_bit_xor xor.assoc xor.commute xor.left_commute)
qed

lemma drop30_shifted: "drop_bit 30 (push_bit 5 (c AND 0x1ffffff) :: 32 word) = 0"
proof -
  have "drop_bit 30 (push_bit 5 (take_bit 25 c) :: 32 word) = 0"
    by (rule bit_eqI) (auto simp add: bit_simps)
  then show ?thesis unfolding mask25 by (simp only: take_bit_eq_mask [symmetric])
qed

lemma polymodStep_bound: "drop_bit 30 (polymodStep c) = 0"
  unfolding polymodStep_def Let_def
  by (simp add: drop_bit_xor drop30_shifted)

lemma drop_bit_zero_iff: "drop_bit k (d :: 32 word) = 0 \<longleftrightarrow> (\<forall>i\<ge>k. \<not> bit d i)"
proof
  assume z: "drop_bit k d = 0"
  show "\<forall>i\<ge>k. \<not> bit d i"
  proof (intro allI impI)
    fix i assume "k \<le> i"
    then have "bit d i = bit (drop_bit k d) (i - k)" by (simp add: bit_drop_bit_eq)
    then show "\<not> bit d i" by (simp add: z)
  qed
next
  assume "\<forall>i\<ge>k. \<not> bit d i"
  then show "drop_bit k d = 0"
    by (intro bit_eqI) (simp add: bit_drop_bit_eq)
qed

lemma low_step:
  assumes "drop_bit k (d :: 32 word) = 0" and "drop_bit 5 (v :: 32 word) = 0"
  shows "drop_bit (k + 5) (push_bit 5 d XOR v) = 0"
  using assms unfolding drop_bit_zero_iff
  by (auto simp add: bit_simps)

lemma polymod_Cons: "polymod c (v # vs) = polymod (polymodStep c XOR v) vs"
  by (simp add: polymod_def)

lemma polymod_Nil: "polymod c [] = c"
  by (simp add: polymod_def)

lemma polymod_append: "polymod c (us @ vs) = polymod (polymod c us) vs"
  by (simp add: polymod_def)

lemma polymod_shift:
  "\<forall>v\<in>set vs. drop_bit 5 v = 0 \<Longrightarrow> drop_bit (30 - 5 * length vs) d = 0 \<Longrightarrow> length vs \<le> 6 \<Longrightarrow>
   polymod (c XOR d) vs
     = polymod c (map (\<lambda>_. 0) vs) XOR foldl (\<lambda>a v. push_bit 5 a XOR v) d vs"
proof (induction vs arbitrary: c d)
  case Nil
  then show ?case by (simp add: polymod_Nil)
next
  case (Cons v vs)
  have len: "length vs \<le> 5" using Cons.prems(3) by simp
  have v5: "drop_bit 5 v = 0" using Cons.prems(1) by simp
  have dk: "drop_bit (30 - 5 * length vs - 5) d = 0"
    using Cons.prems(2) by (simp add: algebra_simps)
  have "drop_bit 25 d = 0"
  proof -
    have "30 - 5 * length vs - 5 \<le> 25" by simp
    with dk show ?thesis unfolding drop_bit_zero_iff by (meson order_trans)
  qed
  then have step: "polymodStep (c XOR d) = polymodStep c XOR push_bit 5 d"
    by (rule polymodStep_low)
  have "drop_bit (30 - 5 * length vs - 5 + 5) (push_bit 5 d XOR v) = 0"
    using dk v5 by (rule low_step)
  moreover have "30 - 5 * length vs - 5 + 5 = 30 - 5 * length vs" using len by simp
  ultimately have d': "drop_bit (30 - 5 * length vs) (push_bit 5 d XOR v) = 0" by simp
  have "polymod (c XOR d) (v # vs) = polymod (polymodStep c XOR (push_bit 5 d XOR v)) vs"
    by (simp only: polymod_Cons step xor.assoc)
  also have "\<dots> = polymod (polymodStep c) (map (\<lambda>_. 0) vs)
        XOR foldl (\<lambda>a v. push_bit 5 a XOR v) (push_bit 5 d XOR v) vs"
    using Cons.prems(1) d' len by (intro Cons.IH) simp_all
  finally show ?case by (simp add: polymod_Cons)
qed

lemma regroup_step:
  "push_bit 5 (drop_bit (k + 5) m) XOR (drop_bit k m AND 0x1f) = drop_bit k (m :: 32 word)"
proof -
  have m5: "(0x1f :: 32 word) = mask 5" by (simp add: mask_eq_exp_minus_1)
  have "push_bit 5 (drop_bit (k + 5) m) XOR take_bit 5 (drop_bit k m) = drop_bit k m"
    by (intro bit_eqI) (auto simp add: bit_simps add.assoc)
  then show ?thesis
    unfolding m5 by (simp only: take_bit_eq_mask)
qed

lemma ucast_low5: "(ucast (ucast (x AND 0x1f :: 32 word) :: 5 word) :: 32 word) = x AND 0x1f"
proof -
  have m5: "(0x1f :: 32 word) = mask 5" by (simp add: mask_eq_exp_minus_1)
  have "(ucast (ucast (take_bit 5 x :: 32 word) :: 5 word) :: 32 word) = take_bit 5 x"
    by (intro bit_eqI) (auto simp add: bit_simps)
  then show ?thesis unfolding m5 by (simp only: take_bit_eq_mask)
qed

lemma drop5_low5: "drop_bit 5 (x AND 0x1f :: 32 word) = 0"
proof -
  have m5: "(0x1f :: 32 word) = mask 5" by (simp add: mask_eq_exp_minus_1)
  have "drop_bit 5 (take_bit 5 x :: 32 word) = 0"
    by (intro bit_eqI) (auto simp add: bit_simps)
  then show ?thesis unfolding m5 by (simp only: take_bit_eq_mask)
qed

lemma drop5_ucast: "drop_bit 5 (ucast (w :: 5 word) :: 32 word) = 0"
  by (intro bit_eqI) (auto simp add: bit_simps dest: bit_imp_le_length)

lemma polymod_zeros_bound: "drop_bit 30 (polymod c [0, 0, 0, 0, 0, 0]) = 0"
  by (simp add: polymod_def polymodStep_bound)

lemma ENCODING_CONST_bound: "drop_bit 30 ENCODING_CONST = 0"
  by (simp add: ENCODING_CONST_def drop_bit_eq_div)

lemma regroup6:
  assumes "drop_bit 30 (m :: 32 word) = 0"
  shows "foldl (\<lambda>a v. push_bit 5 a XOR v) 0
           [drop_bit 25 m AND 0x1f, drop_bit 20 m AND 0x1f, drop_bit 15 m AND 0x1f,
            drop_bit 10 m AND 0x1f, drop_bit 5 m AND 0x1f, m AND 0x1f] = m"
proof -
  have s25: "push_bit 5 0 XOR (drop_bit 25 m AND 0x1f) = drop_bit 25 m"
    using regroup_step [of 25 m] assms by simp
  have s20: "push_bit 5 (drop_bit 25 m) XOR (drop_bit 20 m AND 0x1f) = drop_bit 20 m"
    using regroup_step [of 20 m] by simp
  have s15: "push_bit 5 (drop_bit 20 m) XOR (drop_bit 15 m AND 0x1f) = drop_bit 15 m"
    using regroup_step [of 15 m] by simp
  have s10: "push_bit 5 (drop_bit 15 m) XOR (drop_bit 10 m AND 0x1f) = drop_bit 10 m"
    using regroup_step [of 10 m] by simp
  have s5: "push_bit 5 (drop_bit 10 m) XOR (drop_bit 5 m AND 0x1f) = drop_bit 5 m"
    using regroup_step [of 5 m] by simp
  have s0: "push_bit 5 (drop_bit 5 m) XOR (m AND 0x1f) = m"
    using regroup_step [of 0 m] by simp
  show ?thesis
    by (simp only: foldl.simps s25 s20 s15 s10 s5 s0)
qed

lemma checksum_words:
  "map ucast (checksum p ws) =
     (let m = polymod (polymod (prefixChk p) (map ucast ws)) [0, 0, 0, 0, 0, 0] XOR ENCODING_CONST
      in [drop_bit 25 m AND 0x1f, drop_bit 20 m AND 0x1f, drop_bit 15 m AND 0x1f,
          drop_bit 10 m AND 0x1f, drop_bit 5 m AND 0x1f, m AND 0x1f] :: 32 word list)"
proof -
  have "[0..<6] = [0, 1, 2, 3, 4, 5]" by (simp add: upt_rec)
  then show ?thesis
    by (simp add: checksum_def Let_def ucast_low5)
qed

lemma length_checksum: "length (checksum p ws) = 6"
  by (simp add: checksum_def Let_def)

lemma checksum_verifies:
  "polymod (prefixChk p) (map ucast (ws @ checksum p ws)) = ENCODING_CONST"
proof -
  define c where "c = polymod (prefixChk p) (map ucast ws)"
  define z where "z = polymod c [0, 0, 0, 0, 0, 0]"
  define m where "m = z XOR ENCODING_CONST"
  define vs where "vs = [drop_bit 25 m AND 0x1f, drop_bit 20 m AND 0x1f, drop_bit 15 m AND 0x1f,
          drop_bit 10 m AND 0x1f, drop_bit 5 m AND 0x1f, m AND 0x1f]"
  have cs: "map ucast (checksum p ws) = vs"
    unfolding checksum_words vs_def m_def z_def c_def by (simp only: Let_def)
  have mb: "drop_bit 30 m = 0"
    unfolding m_def z_def by (simp add: drop_bit_xor polymod_zeros_bound ENCODING_CONST_bound)
  have low: "\<forall>v\<in>set vs. drop_bit 5 v = 0"
    unfolding vs_def by (simp add: drop5_low5)
  have "polymod (c XOR 0) vs = polymod c (map (\<lambda>_. 0) vs) XOR foldl (\<lambda>a v. push_bit 5 a XOR v) 0 vs"
    using low by (intro polymod_shift) (simp_all add: vs_def)
  moreover have "map (\<lambda>_. 0 :: 32 word) vs = [0, 0, 0, 0, 0, 0]" by (simp add: vs_def)
  moreover have "foldl (\<lambda>a v. push_bit 5 a XOR v) 0 vs = m"
    unfolding vs_def using mb by (rule regroup6)
  ultimately have "polymod c vs = z XOR m" by (simp add: z_def)
  also have "\<dots> = ENCODING_CONST" by (simp add: m_def flip: xor.assoc)
  finally have "polymod c vs = ENCODING_CONST" .
  then show ?thesis
    by (simp only: map_append polymod_append cs c_def [symmetric])
qed

lemma bits5_of_bits: "bits5 (of_bits [a, b, c, d, e]) = [a, b, c, d, e]"
  by (simp add: bits5_def of_bits_def bit_horner_sum_bit_word_iff)

lemma of_bits_bits8: "of_bits (bits8 w) = w"
proof -
  have "[0..<8] = [0, 1, 2, 3, 4, 5, 6, 7]" by (simp add: upt_rec)
  then have "rev (bits8 w) = map (bit w) [0..<8]" by (simp add: bits8_def)
  then have "(of_bits (bits8 w) :: 8 word) = take_bit 8 w"
    unfolding of_bits_def by (simp only: horner_sum_bit_eq_take_bit)
  then show ?thesis using take_bit_length_eq [of w] by simp
qed

lemma replicate_small:
  "replicate 4 x = [x, x, x, x]" "replicate 3 x = [x, x, x]" "replicate 2 x = [x, x]"
  by (simp_all add: numeral_eq_Suc)

lemma groups5_bits:
  "concat (map bits5 (groups5 bits)) = bits @ replicate ((5 - length bits mod 5) mod 5) False"
proof (induction bits rule: groups5.induct)
  case (1 a b c d e bits)
  then show ?case by (simp add: bits5_of_bits)
qed (simp_all add: bits5_of_bits replicate_small)

lemma groups8_short: "length bits < 8 \<Longrightarrow> groups8 bits = ([], bits)"
  by (cases bits rule: groups8.cases) simp_all

lemma groups8_byte:
  "groups8 (bits8 w @ bits) = (of_bits (bits8 w) # fst (groups8 bits), snd (groups8 bits))"
  by (simp add: bits8_def split: prod.splits)

lemma groups8_bits:
  "length pad < 8 \<Longrightarrow> groups8 (concat (map bits8 bytes) @ pad) = (bytes, pad)"
proof (induction bytes)
  case Nil
  then show ?case by (simp add: groups8_short)
next
  case (Cons w bytes)
  have "groups8 (bits8 w @ concat (map bits8 bytes) @ pad)
        = (of_bits (bits8 w) # bytes, pad)"
    using Cons.IH [OF Cons.prems] by (simp only: groups8_byte fst_conv snd_conv)
  then show ?case by (simp add: of_bits_bits8)
qed

lemma fromWords_toWords: "fromWords (toWords bytes) = Inr bytes"
proof -
  define B where "B = concat (map bits8 bytes)"
  define pad where "pad = replicate ((5 - length B mod 5) mod 5) False"
  have l: "length pad < 5" by (simp add: pad_def)
  then have "groups8 (B @ pad) = (bytes, pad)"
    unfolding B_def by (intro groups8_bits) simp
  moreover have "True \<notin> set pad" by (simp add: pad_def)
  ultimately show ?thesis
    using l by (simp add: fromWords_def toWords_def groups5_bits B_def [symmetric] pad_def [symmetric])
qed

lemma index_of_nth: "distinct xs \<Longrightarrow> i < length xs \<Longrightarrow> index_of (xs ! i) xs = Some i"
proof (induction xs arbitrary: i)
  case Nil
  then show ?case by simp
next
  case (Cons x xs)
  show ?case
  proof (cases i)
    case 0
    then show ?thesis by simp
  next
    case (Suc j)
    with Cons.prems have "xs ! j \<in> set xs" "x \<notin> set xs" by simp_all
    then have "x \<noteq> xs ! j" by blast
    with Cons Suc show ?thesis by simp
  qed
qed

lemma length_ALPHABET: "length ALPHABET = 32"
  by (simp add: ALPHABET_def)

lemma distinct_ALPHABET: "distinct ALPHABET"
  by (simp add: ALPHABET_def)

lemma separator_not_in_ALPHABET: "CHR ''1'' \<notin> set ALPHABET"
  by (simp add: ALPHABET_def)

lemma unat_5_less: "unat (w :: 5 word) < 32"
  using unsigned_less [of w, where ?'a = nat] by simp

lemma ALPHABET_MAP_nth: "ALPHABET_MAP (ALPHABET ! unat w) = Some w"
  by (simp add: ALPHABET_MAP_def index_of_nth distinct_ALPHABET length_ALPHABET unat_5_less)

lemma those_words_chars: "those_words (map (\<lambda>w. ALPHABET ! unat w) ws) = Some ws"
  by (induction ws) (simp_all add: ALPHABET_MAP_nth)

lemma chars_no_separator:
  "CHR ''1'' \<notin> set (map (\<lambda>w. ALPHABET ! unat w) (ws :: 5 word list))"
proof -
  have "ALPHABET ! unat w \<in> set ALPHABET" for w :: "5 word"
    using nth_mem [of "unat w" ALPHABET] by (simp add: length_ALPHABET unat_5_less)
  then have "set (map (\<lambda>w. ALPHABET ! unat w) ws) \<subseteq> set ALPHABET"
    by auto
  then show ?thesis using separator_not_in_ALPHABET by blast
qed

lemma splitLast_absent: "c \<notin> set xs \<Longrightarrow> splitLast c xs = None"
  by (induction xs) auto

lemma splitLast_append: "c \<notin> set b \<Longrightarrow> splitLast c (a @ c # b) = Some (a, b)"
  by (induction a) (simp_all add: splitLast_absent)

lemma decode_encode: "decode p (encode p ws) = Inr ws"
proof -
  define data where "data = map (\<lambda>w. ALPHABET ! unat w) (ws @ checksum p ws)"
  have e: "encode p ws = p @ CHR ''1'' # data" by (simp add: encode_def data_def)
  have s: "splitLast CHR ''1'' (p @ CHR ''1'' # data) = Some (p, data)"
    unfolding data_def by (intro splitLast_append chars_no_separator)
  have l: "\<not> length data < 6" by (simp add: data_def length_checksum)
  have t: "those_words data = Some (ws @ checksum p ws)"
    unfolding data_def by (rule those_words_chars)
  have v: "polymod (prefixChk p) (map ucast ws @ map ucast (checksum p ws)) = ENCODING_CONST"
    using checksum_verifies [of p ws] by simp
  show ?thesis
    unfolding e decode_def s
    by (simp add: l t v length_checksum)
qed

lemma jesterIdToGameId_gameIdToJesterId: "jesterIdToGameId (gameIdToJesterId x) = Inr x"
  by (simp add: jesterIdToGameId_def gameIdToJesterId_def decode_encode fromWords_toWords)

text \<open>
  C1: for every valid (32-byte) game id \<open>x\<close>, decoding its public identifier gives \<open>x\<close> back:
  \<open>jesterIdToGameId (gameIdToJesterId x) = x\<close>. Encoding has no failure case (it is a total
  function), and what it returns decodes successfully, so \<^verbatim>\<open>tryParseJesterId\<close> accepts it.
\<close>

theorem codec_round_trip:
  "valid_game_id x \<Longrightarrow>
     jesterIdToGameId (gameIdToJesterId x) = Inr x
     \<and> tryParseJesterId (gameIdToJesterId x) = Some (gameIdToJesterId x)"
  by (simp add: tryParseJesterId_def jesterIdToGameId_gameIdToJesterId)

text \<open>The scenario of the specification: the all-zero id.\<close>

theorem codec_round_trip_witness:
  "valid_game_id (replicate 32 0)
   \<and> jesterIdToGameId (gameIdToJesterId (replicate 32 0)) = Inr (replicate 32 0)"
proof -
  have h: "valid_game_id (replicate 32 0)" by (simp add: valid_game_id_def)
  show ?thesis using h codec_round_trip [OF h] by simp
qed

text \<open>
  The model against the sources: the all-zero id has the identifier that the format of the
  sample prescribes, and the sample identifier that the search page prints decodes to 32 bytes.
\<close>

lemma zero_game_id_encodes:
  "gameIdToJesterId (replicate 32 0)
     = ''jester1qqqqqqqqqqqqqqqqqqqqqqqqqqqqqqqqqqqqqqqqqqqqqqqqqqqqx7ypsr''"
  by code_simp

lemma sample_jester_id_decodes:
  "jesterIdToGameId ''jester13s8c6xzp33n93zn2qmvtgaypncphz585fggggnzvppmxnyamvc4qpu3sdv''
     = Inr [0x8c, 0x0f, 0x8d, 0x18, 0x41, 0x8c, 0x66, 0x58, 0x8a, 0x6a, 0x06, 0xd8, 0xb4, 0x74, 0x81, 0x9e,
            0x03, 0x71, 0x50, 0xf4, 0x4a, 0x10, 0x84, 0x4c, 0x4c, 0x08, 0x76, 0x69, 0x93, 0xbb, 0x66, 0x2a]"
  by code_simp

lemma gameIdToJesterId_inj: "gameIdToJesterId a = gameIdToJesterId b \<Longrightarrow> a = b"
proof -
  assume "gameIdToJesterId a = gameIdToJesterId b"
  then have "jesterIdToGameId (gameIdToJesterId a) = jesterIdToGameId (gameIdToJesterId b)"
    by simp
  then show "a = b" by (simp only: jesterIdToGameId_gameIdToJesterId sum.inject)
qed

lemma gameIdToJesterId_nonempty: "gameIdToJesterId a \<noteq> []"
  by (simp add: gameIdToJesterId_def encode_def)

section \<open>Properties of searching for an identifier\<close>

lemma indexOf_neg_iff: "indexOf s n < 0 \<longleftrightarrow> (\<forall>i. \<not> prefix n (drop i s))"
proof (induction s)
  case Nil
  then show ?case by auto
next
  case (Cons c cs)
  show ?case
  proof (cases "prefix n (c # cs)")
    case True
    then have "prefix n (drop 0 (c # cs))" by simp
    with True show ?thesis by (auto simp del: drop0 drop_0)
  next
    case False
    have "(\<forall>i. \<not> prefix n (drop i (c # cs))) \<longleftrightarrow> (\<forall>i. \<not> prefix n (drop i cs))"
    proof
      assume a: "\<forall>i. \<not> prefix n (drop i (c # cs))"
      show "\<forall>i. \<not> prefix n (drop i cs)"
      proof
        fix i from a have "\<not> prefix n (drop (Suc i) (c # cs))" by blast
        then show "\<not> prefix n (drop i cs)" by simp
      qed
    next
      assume a: "\<forall>i. \<not> prefix n (drop i cs)"
      show "\<forall>i. \<not> prefix n (drop i (c # cs))"
      proof
        fix i show "\<not> prefix n (drop i (c # cs))"
          using a False by (cases i) simp_all
      qed
    qed
    with Cons False show ?thesis
      by (cases "indexOf cs n < 0") (simp_all add: Let_def)
  qed
qed

lemma indexOf_least: "0 \<le> indexOf s n \<Longrightarrow> nat (indexOf s n) = (LEAST i. prefix n (drop i s))"
proof (induction s)
  case Nil
  then have "n = []" by (simp split: if_splits)
  then show ?case by simp
next
  case (Cons c cs)
  show ?case
  proof (cases "prefix n (c # cs)")
    case True
    then have "(LEAST i. prefix n (drop i (c # cs))) = 0"
      by (intro Least_eq_0) simp
    with True show ?thesis by simp
  next
    case False
    with Cons.prems have nn: "0 \<le> indexOf cs n"
      by (simp add: Let_def split: if_splits)
    then have ih: "nat (indexOf cs n) = (LEAST i. prefix n (drop i cs))" by (rule Cons.IH)
    from nn have "\<not> (\<forall>i. \<not> prefix n (drop i cs))"
      using indexOf_neg_iff [of cs n] by simp
    then obtain k where k: "prefix n (drop k cs)" by blast
    have "(LEAST i. prefix n (drop i (c # cs))) = Suc (LEAST m. prefix n (drop (Suc m) (c # cs)))"
    proof (rule Least_Suc)
      show "prefix n (drop (Suc k) (c # cs))" using k by simp
      show "\<not> prefix n (drop 0 (c # cs))" using False by simp
    qed
    then have "(LEAST i. prefix n (drop i (c # cs))) = Suc (LEAST m. prefix n (drop m cs))" by simp
    with ih nn False show ?thesis by (simp add: Let_def)
  qed
qed

lemma search_absent:
  "searchInput \<noteq> [] \<Longrightarrow> indexOf searchInput (idPrefix @ ''1'') < 0 \<Longrightarrow>
     search idPrefix tryParse searchInput page
       = page\<lparr>inputIsJesterId := Some False, searchResults := Some []\<rparr>"
  by (simp add: search_def)

lemma search_found:
  "searchInput \<noteq> [] \<Longrightarrow> \<not> indexOf searchInput (idPrefix @ ''1'') < 0 \<Longrightarrow>
     search idPrefix tryParse searchInput page
       = (case tryParse (drop (nat (indexOf searchInput (idPrefix @ ''1''))) searchInput) of
            None \<Rightarrow> page\<lparr>inputIsJesterId := Some False, searchResults := Some []\<rparr>
          | Some jesterId \<Rightarrow>
              page\<lparr>inputIsJesterId := Some True, searchResults := None,
                   navigated := navigated page @ [''/redirect/game/'' @ jesterId]\<rparr>)"
  by (simp add: search_def substring_def Let_def split: option.splits)

text \<open>
  C5, as the code has it: \<^verbatim>\<open>search\<close> is total on arbitrary input and has three outcomes.
  The empty input gives empty results and nothing else. An input in which the prefix with its
  separator occurs nowhere gives empty results and the flag \<^verbatim>\<open>false\<close>. Otherwise the first
  occurrence of the prefix is located, at whatever position, and the input from there on goes to
  the parser: an identifier it accepts is navigated to, and one it rejects gives the same outcome
  as an absent prefix. A failure is reported by the flag alone, which has no kinds.
\<close>

theorem search_outcomes:
  "search idPrefix tryParse searchInput page =
     (if searchInput = [] then page\<lparr>searchResults := Some []\<rparr>
      else if \<forall>i. \<not> prefix (idPrefix @ ''1'') (drop i searchInput)
        then page\<lparr>inputIsJesterId := Some False, searchResults := Some []\<rparr>
      else (case tryParse (drop (LEAST i. prefix (idPrefix @ ''1'') (drop i searchInput)) searchInput) of
              None \<Rightarrow> page\<lparr>inputIsJesterId := Some False, searchResults := Some []\<rparr>
            | Some jesterId \<Rightarrow>
                page\<lparr>inputIsJesterId := Some True, searchResults := None,
                     navigated := navigated page @ [''/redirect/game/'' @ jesterId]\<rparr>))"
proof (cases "searchInput = []")
  case True
  then show ?thesis by (simp add: search_def)
next
  case ne: False
  show ?thesis
  proof (cases "indexOf searchInput (idPrefix @ ''1'') < 0")
    case True
    then have a: "\<forall>i. \<not> prefix (idPrefix @ ''1'') (drop i searchInput)"
      using indexOf_neg_iff [of searchInput "idPrefix @ ''1''"] by blast
    show ?thesis
      using ne a by (simp add: search_absent [OF ne True])
  next
    case False
    then have a: "\<not> (\<forall>i. \<not> prefix (idPrefix @ ''1'') (drop i searchInput))"
      using indexOf_neg_iff [of searchInput "idPrefix @ ''1''"] by blast
    from False have l: "nat (indexOf searchInput (idPrefix @ ''1''))
        = (LEAST i. prefix (idPrefix @ ''1'') (drop i searchInput))"
      by (intro indexOf_least) simp
    show ?thesis
      unfolding search_found [OF ne False] l if_not_P [OF ne] if_not_P [OF a] by (rule refl)
  qed
qed

text \<open>
  Three inputs that fail in the three ways the specification names: no prefix, a payload that is
  too short, a wrong checksum. The search page ends in the same state for each of them, so what it
  returns does not tell the kinds apart; and for the empty input, which has no prefix either, it
  reports no failure at all.
\<close>

theorem search_failure_kinds_counterexample:
  "jesterIdToGameId ''abc'' = Inl MalformedIdentifier
   \<and> jesterIdToGameId ''jester1'' = Inl InvalidEncoding
   \<and> jesterIdToGameId ''jester13s8c6xzp33n93zn2qmvtgaypncphz585fggggnzvppmxnyamvc4qpu3sdq''
       = Inl ChecksumMismatch
   \<and> search JESTER_ID_PREFIX tryParseJesterId ''abc'' initialSearchPage
       = search JESTER_ID_PREFIX tryParseJesterId ''jester1'' initialSearchPage
   \<and> search JESTER_ID_PREFIX tryParseJesterId ''abc'' initialSearchPage
       = search JESTER_ID_PREFIX tryParseJesterId
           ''jester13s8c6xzp33n93zn2qmvtgaypncphz585fggggnzvppmxnyamvc4qpu3sdq'' initialSearchPage
   \<and> inputIsJesterId (search JESTER_ID_PREFIX tryParseJesterId [] initialSearchPage) = None"
  by code_simp

text \<open>The prefix in the middle of the input: a link to a game.\<close>

lemma search_url_example:
  "search JESTER_ID_PREFIX tryParseJesterId
     ''https://example.com/jester13s8c6xzp33n93zn2qmvtgaypncphz585fggggnzvppmxnyamvc4qpu3sdv''
     initialSearchPage
   = initialSearchPage\<lparr>inputIsJesterId := Some True, searchResults := None,
       navigated := [''/redirect/game/jester13s8c6xzp33n93zn2qmvtgaypncphz585fggggnzvppmxnyamvc4qpu3sdv'']\<rparr>"
  by code_simp

section \<open>Properties of the current game\<close>

text \<open>
  C6: the lists mark a game as current exactly when it is the held current game. The page decodes
  the held jester id once and compares game ids; for a held id that is the jester id of a game,
  this is the comparison of jester ids: a game is marked exactly when the jester id of its
  \<open>game_id\<close> equals the held one. Without a held id no game is marked. Marking is a function
  of the games and the held id: it returns the games as they were, with a boolean each, and has
  no state to change.
\<close>

theorem GameList_marks_current:
  "(currentGameJesterId st = Some (gameIdToJesterId y) \<longrightarrow>
      currentGameId jesterIdToGameId st = Inr (Some y)
      \<and> GameList games (Some y)
          = map (\<lambda>game. (game, Some (gameIdToJesterId (game_id game)) = currentGameJesterId st)) games)
   \<and> (currentGameJesterId st = None \<longrightarrow>
      currentGameId jesterIdToGameId st = Inr None
      \<and> GameList games None = map (\<lambda>game. (game, False)) games)
   \<and> map fst (GameList games cur) = games"
proof (intro conjI impI)
  assume h: "currentGameJesterId st = Some (gameIdToJesterId y)"
  show "currentGameId jesterIdToGameId st = Inr (Some y)"
    by (simp add: currentGameId_def h gameIdToJesterId_nonempty jesterIdToGameId_gameIdToJesterId)
  show "GameList games (Some y)
      = map (\<lambda>game. (game, Some (gameIdToJesterId (game_id game)) = currentGameJesterId st)) games"
    using gameIdToJesterId_inj by (auto simp add: GameList_def h)
next
  assume h: "currentGameJesterId st = None"
  show "currentGameId jesterIdToGameId st = Inr None" by (simp add: currentGameId_def h)
  show "GameList games None = map (\<lambda>game. (game, False)) games" by (simp add: GameList_def)
next
  show "map fst (GameList games cur) = games" by (simp add: GameList_def comp_def)
qed

text \<open>The held game is the one with the all-zero id; another game is in the list.\<close>

theorem GameList_marks_current_witness:
  "currentGameJesterId \<lparr>currentGameJesterId = Some (gameIdToJesterId (replicate 32 0)), identity = None\<rparr>
     = Some (gameIdToJesterId (replicate 32 0))
   \<and> currentGameId jesterIdToGameId
        \<lparr>currentGameJesterId = Some (gameIdToJesterId (replicate 32 0)), identity = None\<rparr>
     = Inr (Some (replicate 32 0))
   \<and> GameList [\<lparr>game_id = replicate 32 0, created_at = 10, event_tags = []\<rparr>,
               \<lparr>game_id = replicate 32 1, created_at = 20, event_tags = []\<rparr>] (Some (replicate 32 0))
     = [(\<lparr>game_id = replicate 32 0, created_at = 10, event_tags = []\<rparr>, True),
        (\<lparr>game_id = replicate 32 1, created_at = 20, event_tags = []\<rparr>, False)]
   \<and> currentGameJesterId \<lparr>currentGameJesterId = None, identity = None\<rparr> = None
   \<and> GameList [\<lparr>game_id = replicate 32 0, created_at = 10, event_tags = []\<rparr>] None
     = [(\<lparr>game_id = replicate 32 0, created_at = 10, event_tags = []\<rparr>, False)]"
  using GameList_marks_current
    [of "\<lparr>currentGameJesterId = Some (gameIdToJesterId (replicate 32 0)), identity = None\<rparr>"
        "replicate 32 0"
        "[\<lparr>game_id = replicate 32 0, created_at = 10, event_tags = []\<rparr>,
          \<lparr>game_id = replicate 32 1, created_at = 20, event_tags = []\<rparr>]"]
    GameList_marks_current
    [of "\<lparr>currentGameJesterId = None, identity = None\<rparr>" _
        "[\<lparr>game_id = replicate 32 0, created_at = 10, event_tags = []\<rparr>]"]
  by (simp add: GameList_def)

text \<open>
  C7: the settings hold at most one current game (the field is optional, one value or none).
  After \<open>setCurrent a\<close> and then \<open>setCurrent b\<close> the held value is \<open>b\<close>. After the card's
  close button (\<^verbatim>\<open>unsubscribeFromCurrentGame\<close>) nothing is held, the page has no id to compare
  with, and no game of any list is marked. Among the things that change the lobby page, the close
  button is the only one after which a held value is gone: the refresh timer leaves it.
\<close>

theorem current_game_exclusive:
  "currentGameJesterId (setCurrent b (setCurrent a st)) = Some b
   \<and> currentGameJesterId (unsubscribeFromCurrentGame st) = None
   \<and> currentGameId toGameId (unsubscribeFromCurrentGame st) = Inr None
   \<and> (\<forall>marked \<in> set (GameList games None). \<not> snd marked)
   \<and> (currentGameJesterId (settings page) \<noteq> None
        \<and> currentGameJesterId (settings (lobby_step development e page)) = None
       \<longrightarrow> e = CloseCurrentGameCard)"
proof -
  have "currentGameJesterId (settings page) \<noteq> None
        \<and> currentGameJesterId (settings (lobby_step development e page)) = None
       \<longrightarrow> e = CloseCurrentGameCard"
    by (cases e) (auto simp add: setCurrent_def settingsDispatch_def)
  then show ?thesis
    by (auto simp add: setCurrent_def unsubscribeFromCurrentGame_def settingsDispatch_def
        currentGameId_def GameList_def)
qed

text \<open>A page with a current game: the timer leaves it, the close button removes it.\<close>

theorem current_game_exclusive_witness:
  "currentGameJesterId (settings
      \<lparr>settings = \<lparr>currentGameJesterId = Some ''jester1a'', identity = None\<rparr>,
       gameStartEventFilter = createGameOverviewFilter False 0, tick = 0\<rparr>) \<noteq> None
   \<and> currentGameJesterId (settings (lobby_step False CloseCurrentGameCard
      \<lparr>settings = \<lparr>currentGameJesterId = Some ''jester1a'', identity = None\<rparr>,
       gameStartEventFilter = createGameOverviewFilter False 0, tick = 0\<rparr>)) = None
   \<and> currentGameJesterId (settings (lobby_step False (TimerFired 10000 10001)
      \<lparr>settings = \<lparr>currentGameJesterId = Some ''jester1a'', identity = None\<rparr>,
       gameStartEventFilter = createGameOverviewFilter False 0, tick = 0\<rparr>)) = Some ''jester1a''
   \<and> map snd (GameList [\<lparr>game_id = [1], created_at = 10, event_tags = []\<rparr>] None) = [False]"
  using current_game_exclusive
    [of "''jester1b''" "''jester1a''" "\<lparr>currentGameJesterId = None, identity = None\<rparr>" jesterIdToGameId
        "[\<lparr>game_id = [1], created_at = 10, event_tags = []\<rparr>]"
        "\<lparr>settings = \<lparr>currentGameJesterId = Some ''jester1a'', identity = None\<rparr>,
          gameStartEventFilter = createGameOverviewFilter False 0, tick = 0\<rparr>"
        False CloseCurrentGameCard]
  by (simp add: unsubscribeFromCurrentGame_def settingsDispatch_def GameList_def)

end
